theory Spec2Isabelle
  imports Main "HOL-Library.Multiset"
begin

section \<open>Data model (tests/types/cookie.types.ts)\<close>

text \<open>
  A browser cookie as the validator reads it: the fields \<open>name\<close>, \<open>domain\<close> and
  \<open>value\<close> of the objects returned by \<open>page.context().cookies()\<close>. The field
  \<open>value\<close> is called \<open>value_str\<close> here.
\<close>

record cookie =
  name :: string
  domain :: string
  value_str :: string

text \<open>
  \<open>interface ExpectedCookies\<close>: \<open>optionalCookies?\<close> may be absent, which is \<open>None\<close>.
\<close>

record ExpectedCookies =
  requiredCookies :: "string list"
  optionalCookies :: "string list option"

record CookieValidationResult =
  isValid :: bool
  missingRequired :: "string list"
  foundOptional :: nat
  totalOptional :: nat

record ConsentCookieContent =
  hasYesConsent :: bool
  hasYesAction :: bool
  hasYesNecessary :: bool

section \<open>JavaScript string and array primitives\<close>

text \<open>\<open>String.prototype.startsWith\<close> at position 0 and \<open>String.prototype.includes\<close>.\<close>

fun startsWith :: "string \<Rightarrow> string \<Rightarrow> bool" where
  "startsWith s [] = True"
| "startsWith [] (y # ys) = False"
| "startsWith (x # xs) (y # ys) = (x = y \<and> startsWith xs ys)"

fun includes_str :: "string \<Rightarrow> string \<Rightarrow> bool" where
  "includes_str [] sub = (sub = [])"
| "includes_str (x # xs) sub = (startsWith (x # xs) sub \<or> includes_str xs sub)"

section \<open>Cookie set validator (CookieValidator.validateCookies)\<close>

text \<open>The template literal \<open>`${c.name}@${c.domain}`\<close>.\<close>

definition cookieKey :: "cookie \<Rightarrow> string" where
  "cookieKey c = name c @ ''@'' @ domain c"

text \<open>
  The first \<open>for ... of\<close> loop: every required entry that \<open>cookieKeys.includes\<close> rejects
  is pushed at the end of \<open>missingRequired\<close>.
\<close>

fun collectMissing :: "string list \<Rightarrow> string list \<Rightarrow> string list \<Rightarrow> string list" where
  "collectMissing cookieKeys [] missing = missing"
| "collectMissing cookieKeys (requiredCookie # rest) missing =
     collectMissing cookieKeys rest
       (if \<not> (requiredCookie \<in> set cookieKeys) then missing @ [requiredCookie] else missing)"

text \<open>The second loop: \<open>foundOptional++\<close> for every optional entry that is present.\<close>

fun countOptional :: "string list \<Rightarrow> string list \<Rightarrow> nat \<Rightarrow> nat" where
  "countOptional cookieKeys [] found = found"
| "countOptional cookieKeys (optionalCookie # rest) found =
     countOptional cookieKeys rest
       (if optionalCookie \<in> set cookieKeys then found + 1 else found)"

text \<open>
  \<open>expectations.optionalCookies?.length || 0\<close>: \<open>undefined\<close> and the length \<open>0\<close> are
  both falsy and give the right operand.
\<close>

definition optionalLengthOrZero :: "string list option \<Rightarrow> nat" where
  "optionalLengthOrZero opt =
     (case opt of
        None \<Rightarrow> 0
      | Some xs \<Rightarrow> (if length xs = 0 then 0 else length xs))"

definition validateCookies :: "cookie list \<Rightarrow> ExpectedCookies \<Rightarrow> CookieValidationResult" where
  "validateCookies cookies expectations =
     (let cookieKeys = map cookieKey cookies;
          missing = collectMissing cookieKeys (requiredCookies expectations) [];
          found = (case optionalCookies expectations of
                     None \<Rightarrow> 0
                   | Some opts \<Rightarrow> countOptional cookieKeys opts 0)
      in \<lparr> isValid = (length missing = 0),
           missingRequired = missing,
           foundOptional = found,
           totalOptional = optionalLengthOrZero (optionalCookies expectations) \<rparr>)"

section \<open>Configuration (CookieConfig)\<close>

definition CONSENT_COOKIE_NAME :: string where
  "CONSENT_COOKIE_NAME = ''cookieyes-consent''"

definition WWW_DOMAIN :: string where
  "WWW_DOMAIN = ''.www.thethinkingtraveller.com''"

definition BASE_DOMAIN :: string where
  "BASE_DOMAIN = ''.thethinkingtraveller.com''"

text \<open>
  The six desktop and mobile projects share their required cookies; the mobile projects
  declare two optional cookies, the others four.
\<close>

definition desktopExpectations :: ExpectedCookies where
  "desktopExpectations =
     \<lparr> requiredCookies =
         [CONSENT_COOKIE_NAME @ ''@'' @ WWW_DOMAIN, ''_clck@'' @ BASE_DOMAIN],
       optionalCookies = Some
         [''tttdemorepath-_zldp@'' @ BASE_DOMAIN, ''tttdemorepath-_zldt@'' @ BASE_DOMAIN,
          ''_uetsid@'' @ BASE_DOMAIN, ''_uetvid@'' @ BASE_DOMAIN] \<rparr>"

definition mobileExpectations :: ExpectedCookies where
  "mobileExpectations =
     \<lparr> requiredCookies =
         [CONSENT_COOKIE_NAME @ ''@'' @ WWW_DOMAIN, ''_clck@'' @ BASE_DOMAIN],
       optionalCookies = Some
         [''tttdemorepath-_zldp@'' @ BASE_DOMAIN, ''tttdemorepath-_zldt@'' @ BASE_DOMAIN] \<rparr>"

text \<open>The own properties of the object literal \<open>COOKIE_EXPECTATIONS\<close>, in source order.\<close>

definition COOKIE_EXPECTATIONS :: "(string \<times> ExpectedCookies) list" where
  "COOKIE_EXPECTATIONS =
     [(''chromium'', desktopExpectations),
      (''webkit'', desktopExpectations),
      (''firefox'', desktopExpectations),
      (''Microsoft Edge'', desktopExpectations),
      (''Mobile Chrome'', mobileExpectations),
      (''Mobile Safari'', mobileExpectations)]"

text \<open>
  \<open>COOKIE_EXPECTATIONS\<close> is a plain object literal, so the property read
  \<open>COOKIE_EXPECTATIONS[projectName]\<close> falls through to \<open>Object.prototype\<close> when the
  object has no own property of that name. These are the property names every plain
  object inherits; each of them reads as a function, or as \<open>Object.prototype\<close> itself
  for \<open>__proto__\<close>, all of which are truthy.
\<close>

definition objectPrototypeKeys :: "string list" where
  "objectPrototypeKeys =
     [''constructor'', ''hasOwnProperty'', ''isPrototypeOf'', ''propertyIsEnumerable'',
      ''toLocaleString'', ''toString'', ''valueOf'', ''__proto__'',
      ''__defineGetter__'', ''__defineSetter__'', ''__lookupGetter__'', ''__lookupSetter__'']"

text \<open>
  What \<open>getExpectedCookies\<close> can evaluate to: a registered record, \<open>null\<close>, or a member
  inherited from \<open>Object.prototype\<close> (which the declared return type
  \<open>ExpectedCookies | null\<close> does not mention).
\<close>

datatype lookup_result =
    Registered ExpectedCookies
  | InheritedMember string
  | Null

text \<open>\<open>return this.COOKIE_EXPECTATIONS[projectName] || null\<close>.\<close>

definition getExpectedCookies :: "string \<Rightarrow> lookup_result" where
  "getExpectedCookies projectName =
     (case map_of COOKIE_EXPECTATIONS projectName of
        Some expectations \<Rightarrow> Registered expectations
      | None \<Rightarrow>
          (if projectName \<in> set objectPrototypeKeys then InheritedMember projectName
           else Null))"

section \<open>Consent value decoder (CookieValidator.validateConsentCookieContent)\<close>

text \<open>
  \<open>cookies.find\<close> gives the first cookie named \<open>CONSENT_COOKIE_NAME\<close>; without one the
  three flags are \<open>false\<close>, otherwise each is \<open>value.includes\<close> of its token.
\<close>

definition validateConsentCookieContent :: "cookie list \<Rightarrow> ConsentCookieContent" where
  "validateConsentCookieContent cookies =
     (case find (\<lambda>cookie. name cookie = CONSENT_COOKIE_NAME) cookies of
        None \<Rightarrow>
          \<lparr> hasYesConsent = False, hasYesAction = False, hasYesNecessary = False \<rparr>
      | Some consentCookie \<Rightarrow>
          \<lparr> hasYesConsent = includes_str (value_str consentCookie) ''consent:yes'',
            hasYesAction = includes_str (value_str consentCookie) ''action:yes'',
            hasYesNecessary = includes_str (value_str consentCookie) ''necessary:yes'' \<rparr>)"

section \<open>Consent polling engine (CookieValidator.waitForConsentCookie)\<close>

text \<open>
  The browser is a collaborator with a state of its own, of type \<open>'w\<close>. The engine uses
  two of its operations: \<open>page.context().cookies()\<close>, which yields a snapshot or
  rejects, and \<open>page.waitForTimeout(ms)\<close>, which resumes or rejects. Both may change
  the browser's state. A rejection is \<open>Inl\<close> of its message.
\<close>

record 'w page =
  context_cookies :: "'w \<Rightarrow> (string + cookie list) \<times> 'w"
  waitForTimeout :: "int \<Rightarrow> 'w \<Rightarrow> (string + unit) \<times> 'w"

text \<open>
  What the engine does to the outside, in order: a fetch of the snapshot, the
  \<open>console.log\<close> of \<open>Retry n\<close>, a wait of the given milliseconds.
\<close>

datatype page_event = FetchCookies | LogRetry int | Wait int

text \<open>The test \<open>cookiesAfter.some(...)\<close> for a committed consent cookie.\<close>

definition consentCookieSet :: "cookie list \<Rightarrow> bool" where
  "consentCookieSet cookiesAfter =
     list_ex (\<lambda>cookie. name cookie = CONSENT_COOKIE_NAME
                \<and> includes_str (value_str cookie) ''consent:yes'') cookiesAfter"

text \<open>
  The \<open>do ... while (retryCount < maxRetries)\<close> loop, entered at the top of its body
  with the current \<open>retryCount\<close>, browser state and events so far. A rejected await
  leaves the function with that rejection.
\<close>

function doWhile ::
  "'w page \<Rightarrow> int \<Rightarrow> int \<Rightarrow> 'w \<Rightarrow> page_event list
     \<Rightarrow> (string + cookie list) \<times> 'w \<times> page_event list" where
  "doWhile pg maxRetries retryCount w events =
     (case context_cookies pg w of
        (Inl err, w1) \<Rightarrow> (Inl err, w1, events @ [FetchCookies])
      | (Inr cookiesAfter, w1) \<Rightarrow>
          if consentCookieSet cookiesAfter \<or> retryCount \<ge> maxRetries
          then (Inr cookiesAfter, w1, events @ [FetchCookies])
          else
            (case waitForTimeout pg 1000 w1 of
               (Inl err, w2) \<Rightarrow>
                 (Inl err, w2, events @ [FetchCookies, LogRetry (retryCount + 1), Wait 1000])
             | (Inr u, w2) \<Rightarrow>
                 if retryCount + 1 < maxRetries
                 then doWhile pg maxRetries (retryCount + 1) w2
                        (events @ [FetchCookies, LogRetry (retryCount + 1), Wait 1000])
                 else (Inr cookiesAfter, w2,
                        events @ [FetchCookies, LogRetry (retryCount + 1), Wait 1000])))"
  by pat_completeness auto
termination
  by (relation "measure (\<lambda>(pg, maxRetries, retryCount, w, events). nat (maxRetries - retryCount))")
     auto

declare doWhile.simps [simp del]

text \<open>
  \<open>maxRetries: number = 3\<close>: an omitted argument is \<open>None\<close> and takes the default.
  \<open>retryCount\<close> starts at 0.
\<close>

definition waitForConsentCookie ::
  "'w page \<Rightarrow> int option \<Rightarrow> 'w \<Rightarrow> (string + cookie list) \<times> 'w \<times> page_event list" where
  "waitForConsentCookie pg maxRetries w =
     doWhile pg (case maxRetries of None \<Rightarrow> 3 | Some m \<Rightarrow> m) 0 w []"

text \<open>
  One unsuccessful round of the loop as the browser sees it: a fetch, then the wait.
\<close>

definition pollRound :: "'w page \<Rightarrow> 'w \<Rightarrow> 'w" where
  "pollRound pg w = snd (waitForTimeout pg 1000 (snd (context_cookies pg w)))"

text \<open>The events of the unsuccessful rounds numbered \<open>i\<close> to \<open>j - 1\<close>.\<close>

definition roundEvents :: "nat \<Rightarrow> nat \<Rightarrow> page_event list" where
  "roundEvents i j =
     concat (map (\<lambda>k. [FetchCookies, LogRetry (int k + 1), Wait 1000]) [i..<j])"

text \<open>How many fetches and how many waits a sequence of events holds.\<close>

fun isWait :: "page_event \<Rightarrow> bool" where
  "isWait (Wait ms) = True"
| "isWait FetchCookies = False"
| "isWait (LogRetry n) = False"

definition fetchCount :: "page_event list \<Rightarrow> nat" where
  "fetchCount events = length (filter (\<lambda>e. e = FetchCookies) events)"

definition waitCount :: "page_event list \<Rightarrow> nat" where
  "waitCount events = length (filter isWait events)"

text \<open>
  Two fake browsers for evaluating the engine. Their state is the number of fetches
  made so far; waits always resume. \<open>silentSource\<close> always yields the empty snapshot.
  \<open>thirdFetchSource\<close> yields a consent cookie reading \<open>consent:no\<close> on the first two
  fetches and one reading \<open>consent:yes\<close> from the third fetch on.
\<close>

definition silentSource :: "nat page" where
  "silentSource =
     \<lparr> context_cookies = (\<lambda>n. (Inr [], Suc n)),
       waitForTimeout = (\<lambda>ms n. (Inr (), n)) \<rparr>"

definition thirdFetchSource :: "nat page" where
  "thirdFetchSource =
     \<lparr> context_cookies = (\<lambda>n.
         (Inr [\<lparr> name = ''cookieyes-consent'', domain = ''.www.thethinkingtraveller.com'',
                 value_str = (if 2 \<le> n then ''consent:yes;action:yes'' else ''consent:no'') \<rparr>],
          Suc n)),
       waitForTimeout = (\<lambda>ms n. (Inr (), n)) \<rparr>"

section \<open>Calling workflow (CookieCustomizationTest.validateCookies)\<close>

datatype workflow_event =
    WarnNoValidationRules string
  | CalledLogCookieValidation
  | CalledValidateCookies
  | CalledValidateConsentCookie
  | LogAllValidated

datatype workflow_outcome =
    Returned
  | ExpectFailed string
  | ThrewTypeError

text \<open>
  \<open>assertRequiredCookies\<close>: the first missing cookie fails its \<open>expect\<close>, which throws.
\<close>

definition assertRequiredCookies :: "CookieValidationResult \<Rightarrow> workflow_outcome" where
  "assertRequiredCookies validationResult =
     (if \<not> isValid validationResult then
        (case missingRequired validationResult of
           [] \<Rightarrow> Returned
         | missingCookie # rest \<Rightarrow> ExpectFailed missingCookie)
      else Returned)"

text \<open>\<open>validateConsentCookie\<close>: four \<open>expect\<close>s in a row, the first failing one throws.\<close>

definition validateConsentCookie :: "cookie list \<Rightarrow> workflow_outcome" where
  "validateConsentCookie cookiesAfter =
     (let consentCookieUpdated = list_ex (\<lambda>cookie. name cookie = CONSENT_COOKIE_NAME
                \<and> includes_str (value_str cookie) ''consent:yes'') cookiesAfter;
          consentContent = validateConsentCookieContent cookiesAfter
      in if \<not> consentCookieUpdated
           then ExpectFailed ''Consent cookie should be updated after customization''
         else if \<not> hasYesConsent consentContent
           then ExpectFailed ''Consent cookie should contain consent:yes''
         else if \<not> hasYesAction consentContent
           then ExpectFailed ''Consent cookie should contain action:yes''
         else if \<not> hasYesNecessary consentContent
           then ExpectFailed ''Consent cookie should contain necessary:yes''
         else Returned)"

text \<open>
  The workflow's private \<open>validateCookies\<close>. A falsy lookup result logs the warning and
  returns. A member inherited from \<open>Object.prototype\<close> is truthy and reaches
  \<open>logCookieValidation\<close>, whose \<open>for ... of\<close> over the absent \<open>requiredCookies\<close> throws
  a \<open>TypeError\<close>.
\<close>

definition workflow_validateCookies ::
  "string \<Rightarrow> cookie list \<Rightarrow> cookie list \<Rightarrow> workflow_event list \<times> workflow_outcome" where
  "workflow_validateCookies projectName cookiesBefore cookiesAfter =
     (case getExpectedCookies projectName of
        Null \<Rightarrow> ([WarnNoValidationRules projectName], Returned)
      | InheritedMember k \<Rightarrow> ([CalledLogCookieValidation], ThrewTypeError)
      | Registered projectExpectations \<Rightarrow>
          (case assertRequiredCookies (validateCookies cookiesAfter projectExpectations) of
             Returned \<Rightarrow>
               (case validateConsentCookie cookiesAfter of
                  Returned \<Rightarrow>
                    ([CalledLogCookieValidation, CalledValidateCookies,
                      CalledValidateConsentCookie, LogAllValidated], Returned)
                | failure \<Rightarrow>
                    ([CalledLogCookieValidation, CalledValidateCookies,
                      CalledValidateConsentCookie], failure))
           | failure \<Rightarrow> ([CalledLogCookieValidation, CalledValidateCookies], failure)))"

section \<open>Properties of the primitives\<close>

lemma startsWith_iff: "startsWith s sub \<longleftrightarrow> (\<exists>q. s = sub @ q)"
  by (induction s sub rule: startsWith.induct) auto

lemma includes_iff: "includes_str s sub \<longleftrightarrow> (\<exists>p q. s = p @ sub @ q)"
proof (induction s)
  case Nil
  show ?case by auto
next
  case (Cons x xs)
  show ?case
  proof
    assume "includes_str (x # xs) sub"
    then consider "startsWith (x # xs) sub" | "includes_str xs sub" by auto
    then show "\<exists>p q. x # xs = p @ sub @ q"
    proof cases
      case 1
      then obtain q where "x # xs = sub @ q" by (auto simp: startsWith_iff)
      then have "x # xs = [] @ sub @ q" by simp
      then show ?thesis by blast
    next
      case 2
      then obtain p q where "xs = p @ sub @ q" using Cons.IH by blast
      then have "x # xs = (x # p) @ sub @ q" by simp
      then show ?thesis by blast
    qed
  next
    assume "\<exists>p q. x # xs = p @ sub @ q"
    then obtain p q where pq: "x # xs = p @ sub @ q" by blast
    show "includes_str (x # xs) sub"
    proof (cases p)
      case Nil
      with pq have "startsWith (x # xs) sub" by (auto simp: startsWith_iff)
      then show ?thesis by simp
    next
      case (Cons a p')
      with pq have "xs = p' @ sub @ q" by simp
      then have "includes_str xs sub" using Cons.IH by blast
      then show ?thesis by simp
    qed
  qed
qed

section \<open>Properties of the validator\<close>

lemma collectMissing_filter:
  "collectMissing ks rs acc = acc @ filter (\<lambda>r. r \<notin> set ks) rs"
  by (induction rs arbitrary: acc) auto

lemma countOptional_filter:
  "countOptional ks os n = n + length (filter (\<lambda>k. k \<in> set ks) os)"
  by (induction os arbitrary: n) auto

lemma missingRequired_filter:
  "missingRequired (validateCookies cookies e) =
     filter (\<lambda>r. r \<notin> set (map cookieKey cookies)) (requiredCookies e)"
  by (simp add: validateCookies_def Let_def collectMissing_filter)

lemma isValid_missingRequired:
  "isValid (validateCookies cookies e) \<longleftrightarrow> missingRequired (validateCookies cookies e) = []"
  by (simp add: validateCookies_def Let_def)

lemma validateCookies_keys_cong:
  assumes "set (map cookieKey cookies') = set (map cookieKey cookies)"
  shows "validateCookies cookies' e = validateCookies cookies e"
  using assms
  by (simp add: validateCookies_def Let_def collectMissing_filter countOptional_filter
           split: option.splits)

text \<open>
  C1. \<open>validateCookies\<close> reports \<open>isValid\<close> exactly when every entry of
  \<open>requiredCookies\<close> is equal, as a string, to one of the keys \<open>name@domain\<close> of the
  observed cookies, and every required entry without such a key is listed in
  \<open>missingRequired\<close>.
\<close>

theorem validateCookies_isValid_iff:
  "(isValid (validateCookies observed expectations) \<longleftrightarrow>
      (\<forall>r \<in> set (requiredCookies expectations).
         \<exists>c \<in> set observed. r = name c @ ''@'' @ domain c))
   \<and> (\<forall>r \<in> set (requiredCookies expectations).
        (\<not> (\<exists>c \<in> set observed. r = name c @ ''@'' @ domain c))
          \<longrightarrow> r \<in> set (missingRequired (validateCookies observed expectations)))"
proof -
  have keys: "\<And>r. (r \<in> set (map cookieKey observed))
                 \<longleftrightarrow> (\<exists>c \<in> set observed. r = name c @ ''@'' @ domain c)"
    by (auto simp: cookieKey_def)
  have "isValid (validateCookies observed expectations) \<longleftrightarrow>
          filter (\<lambda>r. r \<notin> set (map cookieKey observed)) (requiredCookies expectations) = []"
    by (simp add: isValid_missingRequired missingRequired_filter)
  also have "\<dots> \<longleftrightarrow> (\<forall>r \<in> set (requiredCookies expectations). r \<in> set (map cookieKey observed))"
    by (simp add: filter_empty_conv)
  finally have a: "isValid (validateCookies observed expectations) \<longleftrightarrow>
      (\<forall>r \<in> set (requiredCookies expectations).
         \<exists>c \<in> set observed. r = name c @ ''@'' @ domain c)"
    by (simp only: keys)
  have b: "\<forall>r \<in> set (requiredCookies expectations).
        (\<not> (\<exists>c \<in> set observed. r = name c @ ''@'' @ domain c))
          \<longrightarrow> r \<in> set (missingRequired (validateCookies observed expectations))"
    unfolding missingRequired_filter using keys by auto
  from a b show ?thesis by blast
qed

theorem validateCookies_isValid_iff_witness:
  "isValid (validateCookies
      [\<lparr>name = ''cookieyes-consent'', domain = ''.www.thethinkingtraveller.com'', value_str = ''consent:yes''\<rparr>,
       \<lparr>name = ''_clck'', domain = ''.thethinkingtraveller.com'', value_str = ''x''\<rparr>]
      desktopExpectations)
   \<and> \<not> isValid (validateCookies
      [\<lparr>name = ''cookieyes-consent'', domain = ''.www.thethinkingtraveller.com'', value_str = ''consent:yes''\<rparr>]
      desktopExpectations)
   \<and> ''_clck@.thethinkingtraveller.com'' \<in> set (missingRequired (validateCookies
      [\<lparr>name = ''cookieyes-consent'', domain = ''.www.thethinkingtraveller.com'', value_str = ''consent:yes''\<rparr>]
      desktopExpectations))"
  using validateCookies_isValid_iff [of
      "[\<lparr>name = ''cookieyes-consent'', domain = ''.www.thethinkingtraveller.com'', value_str = ''consent:yes''\<rparr>,
       \<lparr>name = ''_clck'', domain = ''.thethinkingtraveller.com'', value_str = ''x''\<rparr>]"
      desktopExpectations]
    validateCookies_isValid_iff [of
      "[\<lparr>name = ''cookieyes-consent'', domain = ''.www.thethinkingtraveller.com'', value_str = ''consent:yes''\<rparr>]"
      desktopExpectations]
  by (simp add: desktopExpectations_def CONSENT_COOKIE_NAME_def WWW_DOMAIN_def BASE_DOMAIN_def)

text \<open>
  C6. \<open>validateCookies\<close> gives the same result for every permutation of the observed
  cookies, and for the list without its duplicates; \<open>missingRequired\<close> is the
  sub-sequence of \<open>requiredCookies\<close>, in declaration order, of the entries that are no
  observed key.
\<close>

theorem validateCookies_order_independent:
  assumes "mset observed' = mset observed"
  shows "validateCookies observed' expectations = validateCookies observed expectations
       \<and> validateCookies (remdups observed) expectations = validateCookies observed expectations
       \<and> missingRequired (validateCookies observed expectations) =
           filter (\<lambda>r. r \<notin> set (map cookieKey observed)) (requiredCookies expectations)"
proof -
  from assms have "set observed' = set observed" by (rule mset_eq_setD)
  then have "set (map cookieKey observed') = set (map cookieKey observed)" by simp
  then have a: "validateCookies observed' expectations = validateCookies observed expectations"
    by (rule validateCookies_keys_cong)
  have "set (map cookieKey (remdups observed)) = set (map cookieKey observed)" by simp
  then have b: "validateCookies (remdups observed) expectations = validateCookies observed expectations"
    by (rule validateCookies_keys_cong)
  from a b show ?thesis by (simp add: missingRequired_filter)
qed

theorem validateCookies_order_independent_witness:
  "validateCookies
      [\<lparr>name = ''b'', domain = ''y'', value_str = ''2''\<rparr>, \<lparr>name = ''a'', domain = ''x'', value_str = ''1''\<rparr>]
      \<lparr>requiredCookies = [''c@z'', ''a@x'', ''d@w''], optionalCookies = None\<rparr>
   = validateCookies
      [\<lparr>name = ''a'', domain = ''x'', value_str = ''1''\<rparr>, \<lparr>name = ''b'', domain = ''y'', value_str = ''2''\<rparr>]
      \<lparr>requiredCookies = [''c@z'', ''a@x'', ''d@w''], optionalCookies = None\<rparr>
   \<and> missingRequired (validateCookies
      [\<lparr>name = ''a'', domain = ''x'', value_str = ''1''\<rparr>, \<lparr>name = ''b'', domain = ''y'', value_str = ''2''\<rparr>]
      \<lparr>requiredCookies = [''c@z'', ''a@x'', ''d@w''], optionalCookies = None\<rparr>) = [''c@z'', ''d@w'']"
proof -
  have h: "mset [\<lparr>name = ''b'', domain = ''y'', value_str = ''2''\<rparr>, \<lparr>name = ''a'', domain = ''x'', value_str = ''1''\<rparr>]
         = mset [\<lparr>name = ''a'', domain = ''x'', value_str = ''1''\<rparr>, \<lparr>name = ''b'', domain = ''y'', value_str = ''2''\<rparr>]"
    by simp
  show ?thesis
    using validateCookies_order_independent [OF h,
        of "\<lparr>requiredCookies = [''c@z'', ''a@x'', ''d@w''], optionalCookies = None\<rparr>"]
    by (simp add: cookieKey_def)
qed

text \<open>
  C8. \<open>totalOptional\<close> is the length of \<open>optionalCookies\<close>, or 0 when the field is
  absent, whatever was observed; \<open>foundOptional\<close> counts the entries of
  \<open>optionalCookies\<close> that are the key \<open>name@domain\<close> of an observed cookie.
\<close>

theorem validateCookies_optional_counts:
  "totalOptional (validateCookies observed expectations) =
     (case optionalCookies expectations of None \<Rightarrow> 0 | Some opts \<Rightarrow> length opts)
   \<and> foundOptional (validateCookies observed expectations) =
     (case optionalCookies expectations of
        None \<Rightarrow> 0
      | Some opts \<Rightarrow>
          length (filter (\<lambda>k. \<exists>c \<in> set observed. k = name c @ ''@'' @ domain c) opts))"
proof -
  have keys: "\<And>k. (k \<in> set (map cookieKey observed))
                 \<longleftrightarrow> (\<exists>c \<in> set observed. k = name c @ ''@'' @ domain c)"
    by (auto simp: cookieKey_def)
  show ?thesis
    by (simp add: validateCookies_def Let_def optionalLengthOrZero_def countOptional_filter
          keys del: set_map split: option.splits)
qed

theorem validateCookies_optional_counts_witness:
  "totalOptional (validateCookies [] \<lparr>requiredCookies = [], optionalCookies = None\<rparr>) = 0
   \<and> totalOptional (validateCookies
        [\<lparr>name = ''_uetsid'', domain = ''.thethinkingtraveller.com'', value_str = ''1''\<rparr>]
        desktopExpectations) = 4
   \<and> foundOptional (validateCookies
        [\<lparr>name = ''_uetsid'', domain = ''.thethinkingtraveller.com'', value_str = ''1''\<rparr>]
        desktopExpectations) = 1"
  using validateCookies_optional_counts [of "[]" "\<lparr>requiredCookies = [], optionalCookies = None\<rparr>"]
    validateCookies_optional_counts [of
        "[\<lparr>name = ''_uetsid'', domain = ''.thethinkingtraveller.com'', value_str = ''1''\<rparr>]"
        desktopExpectations]
  by (simp add: desktopExpectations_def BASE_DOMAIN_def)

section \<open>Properties of the decoder\<close>

lemma find_filter_same: "find P (filter P xs) = find P xs"
  by (induction xs) auto

lemma find_first_match:
  assumes "P c" and "\<forall>p \<in> set pre. \<not> P p"
  shows "find P (pre @ c # rest) = Some c"
  using assms by (induction pre) auto

text \<open>
  C2, as amended. The decoder returns the three flags \<open>hasYesConsent\<close>, \<open>hasYesAction\<close>
  and \<open>hasYesNecessary\<close>; each holds exactly when its token \<open>consent:yes\<close>,
  \<open>action:yes\<close>, \<open>necessary:yes\<close> occurs as a substring of the value of the first
  cookie named \<open>cookieyes-consent\<close>. Without such a cookie, or when its value is empty,
  the three flags are false.
\<close>

theorem validateConsentCookieContent_three_flags:
  "(find (\<lambda>cookie. name cookie = CONSENT_COOKIE_NAME) cookies = Some c \<longrightarrow>
      (hasYesConsent (validateConsentCookieContent cookies)
         \<longleftrightarrow> (\<exists>p q. value_str c = p @ ''consent:yes'' @ q))
    \<and> (hasYesAction (validateConsentCookieContent cookies)
         \<longleftrightarrow> (\<exists>p q. value_str c = p @ ''action:yes'' @ q))
    \<and> (hasYesNecessary (validateConsentCookieContent cookies)
         \<longleftrightarrow> (\<exists>p q. value_str c = p @ ''necessary:yes'' @ q)))
   \<and> (find (\<lambda>cookie. name cookie = CONSENT_COOKIE_NAME) cookies = None
        \<or> (find (\<lambda>cookie. name cookie = CONSENT_COOKIE_NAME) cookies = Some c
             \<and> value_str c = [])
       \<longrightarrow> validateConsentCookieContent cookies =
             \<lparr> hasYesConsent = False, hasYesAction = False, hasYesNecessary = False \<rparr>)"
  unfolding includes_iff [symmetric]
  by (auto simp: validateConsentCookieContent_def)

theorem validateConsentCookieContent_three_flags_witness:
  "validateConsentCookieContent
     [\<lparr>name = ''_clck'', domain = ''.thethinkingtraveller.com'', value_str = ''consent:yes''\<rparr>,
      \<lparr>name = ''cookieyes-consent'', domain = ''.www.thethinkingtraveller.com'', value_str = []\<rparr>]
   = \<lparr> hasYesConsent = False, hasYesAction = False, hasYesNecessary = False \<rparr>
   \<and> hasYesNecessary (validateConsentCookieContent
     [\<lparr>name = ''cookieyes-consent'', domain = ''.www.thethinkingtraveller.com'',
       value_str = ''necessary:yes;analytics:no;advertisement:no''\<rparr>])"
  using validateConsentCookieContent_three_flags [of
        "[\<lparr>name = ''_clck'', domain = ''.thethinkingtraveller.com'', value_str = ''consent:yes''\<rparr>,
          \<lparr>name = ''cookieyes-consent'', domain = ''.www.thethinkingtraveller.com'', value_str = []\<rparr>]"
        "\<lparr>name = ''cookieyes-consent'', domain = ''.www.thethinkingtraveller.com'', value_str = []\<rparr>",
        unfolded includes_iff [symmetric]]
      validateConsentCookieContent_three_flags [of
        "[\<lparr>name = ''cookieyes-consent'', domain = ''.www.thethinkingtraveller.com'',
           value_str = ''necessary:yes;analytics:no;advertisement:no''\<rparr>]"
        "\<lparr>name = ''cookieyes-consent'', domain = ''.www.thethinkingtraveller.com'',
           value_str = ''necessary:yes;analytics:no;advertisement:no''\<rparr>",
        unfolded includes_iff [symmetric]]
  by (simp add: CONSENT_COOKIE_NAME_def)

text \<open>
  The claim C2 as stated fails: the decoder's result has no flag for \<open>functional\<close>,
  \<open>analytics\<close>, \<open>performance\<close>, \<open>advertisement\<close> or \<open>other\<close>. Two consent values that
  differ in all five of these tokens decode to the same result.
\<close>

theorem validateConsentCookieContent_eight_flags_counterexample:
  "validateConsentCookieContent
     [\<lparr>name = ''cookieyes-consent'', domain = ''.www.thethinkingtraveller.com'',
       value_str = ''consent:yes;action:yes;necessary:yes;functional:yes;analytics:yes;performance:yes;advertisement:yes;other:yes''\<rparr>]
   = validateConsentCookieContent
     [\<lparr>name = ''cookieyes-consent'', domain = ''.www.thethinkingtraveller.com'',
       value_str = ''consent:yes;action:yes;necessary:yes;functional:no;analytics:no;performance:no;advertisement:no;other:no''\<rparr>]
   \<and> includes_str ''consent:yes;action:yes;necessary:yes;functional:yes;analytics:yes;performance:yes;advertisement:yes;other:yes'' ''functional:yes''
   \<and> \<not> includes_str ''consent:yes;action:yes;necessary:yes;functional:no;analytics:no;performance:no;advertisement:no;other:no'' ''functional:yes''"
  by (simp add: validateConsentCookieContent_def CONSENT_COOKIE_NAME_def)

text \<open>
  C10. With several cookies named \<open>cookieyes-consent\<close> the flags come from the value of
  the first one in list order, and removing every cookie of another name leaves the
  result unchanged.
\<close>

theorem validateConsentCookieContent_first_consent_cookie:
  assumes "name c = CONSENT_COOKIE_NAME"
    and "\<forall>p \<in> set pre. name p \<noteq> CONSENT_COOKIE_NAME"
  shows "validateConsentCookieContent (pre @ c # rest) =
           \<lparr> hasYesConsent = includes_str (value_str c) ''consent:yes'',
             hasYesAction = includes_str (value_str c) ''action:yes'',
             hasYesNecessary = includes_str (value_str c) ''necessary:yes'' \<rparr>
       \<and> validateConsentCookieContent cookies =
           validateConsentCookieContent
             (filter (\<lambda>cookie. name cookie = CONSENT_COOKIE_NAME) cookies)"
proof -
  have "find (\<lambda>cookie. name cookie = CONSENT_COOKIE_NAME) (pre @ c # rest) = Some c"
    using assms by (intro find_first_match) auto
  then have a: "validateConsentCookieContent (pre @ c # rest) =
           \<lparr> hasYesConsent = includes_str (value_str c) ''consent:yes'',
             hasYesAction = includes_str (value_str c) ''action:yes'',
             hasYesNecessary = includes_str (value_str c) ''necessary:yes'' \<rparr>"
    by (simp add: validateConsentCookieContent_def)
  have b: "validateConsentCookieContent cookies =
           validateConsentCookieContent
             (filter (\<lambda>cookie. name cookie = CONSENT_COOKIE_NAME) cookies)"
    by (simp add: validateConsentCookieContent_def find_filter_same)
  from a b show ?thesis by blast
qed

theorem validateConsentCookieContent_first_consent_cookie_witness:
  "validateConsentCookieContent
     ([\<lparr>name = ''_clck'', domain = ''d'', value_str = ''consent:yes;action:yes''\<rparr>]
      @ \<lparr>name = ''cookieyes-consent'', domain = ''d'', value_str = ''consent:no;necessary:yes''\<rparr>
      # [\<lparr>name = ''cookieyes-consent'', domain = ''e'', value_str = ''consent:yes;action:yes''\<rparr>])
   = \<lparr> hasYesConsent = False, hasYesAction = False, hasYesNecessary = True \<rparr>"
proof -
  have h1: "name \<lparr>name = ''cookieyes-consent'', domain = ''d'', value_str = ''consent:no;necessary:yes''\<rparr>
              = CONSENT_COOKIE_NAME"
    by (simp add: CONSENT_COOKIE_NAME_def)
  have h2: "\<forall>p \<in> set [\<lparr>name = ''_clck'', domain = ''d'', value_str = ''consent:yes;action:yes''\<rparr>].
              name p \<noteq> CONSENT_COOKIE_NAME"
    by (simp add: CONSENT_COOKIE_NAME_def)
  show ?thesis
    using validateConsentCookieContent_first_consent_cookie [OF h1 h2,
        of "[\<lparr>name = ''cookieyes-consent'', domain = ''e'', value_str = ''consent:yes;action:yes''\<rparr>]" "[]"]
    by simp
qed

section \<open>Properties of the registry and of the calling workflow\<close>

lemma getExpectedCookies_registered:
  "map_of COOKIE_EXPECTATIONS projectName = Some e \<Longrightarrow> getExpectedCookies projectName = Registered e"
  by (simp add: getExpectedCookies_def)

lemma getExpectedCookies_null:
  "map_of COOKIE_EXPECTATIONS projectName = None \<Longrightarrow> projectName \<notin> set objectPrototypeKeys
     \<Longrightarrow> getExpectedCookies projectName = Null"
  by (simp add: getExpectedCookies_def)

lemma workflow_skips_on_null:
  "getExpectedCookies projectName = Null \<Longrightarrow>
     workflow_validateCookies projectName cookiesBefore cookiesAfter
       = ([WarnNoValidationRules projectName], Returned)"
  by (simp add: workflow_validateCookies_def)

text \<open>
  C7 at the project name \<open>constructor\<close>: no environment of that name is registered, yet
  the lookup is not \<open>null\<close> but the member inherited from \<open>Object.prototype\<close>, and the
  workflow goes on into \<open>logCookieValidation\<close> and throws instead of logging the
  warning and returning. A name that is neither registered nor inherited, such as
  \<open>Google Chrome\<close>, gets \<open>null\<close> and the skip.
\<close>

theorem getExpectedCookies_constructor:
  "map_of COOKIE_EXPECTATIONS ''constructor'' = None
   \<and> getExpectedCookies ''constructor'' = InheritedMember ''constructor''
   \<and> workflow_validateCookies ''constructor'' [] [] = ([CalledLogCookieValidation], ThrewTypeError)
   \<and> map_of COOKIE_EXPECTATIONS ''Google Chrome'' = None
   \<and> getExpectedCookies ''Google Chrome'' = Null
   \<and> workflow_validateCookies ''Google Chrome'' [] [] = ([WarnNoValidationRules ''Google Chrome''], Returned)
   \<and> getExpectedCookies ''Mobile Safari'' = Registered mobileExpectations"
  by (simp add: getExpectedCookies_def COOKIE_EXPECTATIONS_def objectPrototypeKeys_def
        workflow_validateCookies_def)

section \<open>Properties of the polling engine\<close>

lemma doWhile_fetch_rejected:
  "context_cookies pg w = (Inl err, w1) \<Longrightarrow>
     doWhile pg maxRetries retryCount w events = (Inl err, w1, events @ [FetchCookies])"
  by (subst doWhile.simps) simp

lemma doWhile_stop:
  "context_cookies pg w = (Inr s, w1) \<Longrightarrow> consentCookieSet s \<or> maxRetries \<le> retryCount \<Longrightarrow>
     doWhile pg maxRetries retryCount w events = (Inr s, w1, events @ [FetchCookies])"
  by (subst doWhile.simps) auto

lemma doWhile_retry:
  "context_cookies pg w = (Inr s, w1) \<Longrightarrow> \<not> consentCookieSet s \<Longrightarrow> retryCount < maxRetries \<Longrightarrow>
   waitForTimeout pg 1000 w1 = (Inr u, w2) \<Longrightarrow>
     doWhile pg maxRetries retryCount w events =
       (if retryCount + 1 < maxRetries
        then doWhile pg maxRetries (retryCount + 1) w2
               (events @ [FetchCookies, LogRetry (retryCount + 1), Wait 1000])
        else (Inr s, w2, events @ [FetchCookies, LogRetry (retryCount + 1), Wait 1000]))"
  by (subst doWhile.simps) simp

lemma roundEvents_step:
  "i < j \<Longrightarrow> roundEvents i j = [FetchCookies, LogRetry (int i + 1), Wait 1000] @ roundEvents (Suc i) j"
  by (simp add: roundEvents_def upt_conv_Cons)

lemma roundEvents_empty: "roundEvents i i = []"
  by (simp add: roundEvents_def)

lemma fetchCount_roundEvents: "fetchCount (roundEvents 0 m) = m"
  by (induction m) (simp_all add: roundEvents_def fetchCount_def)

lemma waitCount_roundEvents: "waitCount (roundEvents 0 m) = m"
  by (induction m) (simp_all add: roundEvents_def waitCount_def)

lemma last_roundEvents: "0 < m \<Longrightarrow> last (roundEvents 0 m) = Wait 1000"
  by (cases m) (simp_all add: roundEvents_def)

text \<open>
  The loop on a source that never commits and never rejects, entered with
  \<open>retryCount = i < m\<close>: it runs the rounds \<open>i\<close> to \<open>m - 1\<close>, each a fetch followed by a
  wait, and returns the snapshot of the last fetch.
\<close>

lemma doWhile_never_committed:
  assumes never: "\<forall>w. \<exists>s. fst (context_cookies pg w) = Inr s \<and> \<not> consentCookieSet s"
    and waits: "\<forall>w. fst (waitForTimeout pg 1000 w) = Inr ()"
  shows "i + Suc d = m \<Longrightarrow>
     doWhile pg (int m) (int i) w events =
       (fst (context_cookies pg ((pollRound pg ^^ d) w)),
        (pollRound pg ^^ Suc d) w,
        events @ roundEvents i m)"
proof (induction d arbitrary: i w events)
  case 0
  obtain s where s: "fst (context_cookies pg w) = Inr s" "\<not> consentCookieSet s"
    using never by blast
  define w1 where "w1 = snd (context_cookies pg w)"
  define w2 where "w2 = snd (waitForTimeout pg 1000 w1)"
  have f: "context_cookies pg w = (Inr s, w1)" using s(1) by (simp add: w1_def prod_eq_iff)
  have t: "waitForTimeout pg 1000 w1 = (Inr (), w2)" using waits by (simp add: w2_def prod_eq_iff)
  have lt: "int i < int m" using 0 by simp
  have nlt: "\<not> int i + 1 < int m" using 0 by simp
  have ev: "roundEvents i m = [FetchCookies, LogRetry (int i + 1), Wait 1000]"
    using 0 roundEvents_step [of i m] by (simp add: roundEvents_empty)
  have "doWhile pg (int m) (int i) w events =
          (Inr s, w2, events @ [FetchCookies, LogRetry (int i + 1), Wait 1000])"
    using doWhile_retry [OF f s(2) lt t, of events] nlt by simp
  then show ?case
    using s(1) ev by (simp add: pollRound_def w1_def w2_def)
next
  case (Suc d)
  obtain s where s: "fst (context_cookies pg w) = Inr s" "\<not> consentCookieSet s"
    using never by blast
  define w1 where "w1 = snd (context_cookies pg w)"
  define w2 where "w2 = snd (waitForTimeout pg 1000 w1)"
  have f: "context_cookies pg w = (Inr s, w1)" using s(1) by (simp add: w1_def prod_eq_iff)
  have t: "waitForTimeout pg 1000 w1 = (Inr (), w2)" using waits by (simp add: w2_def prod_eq_iff)
  have w2: "w2 = pollRound pg w" by (simp add: pollRound_def w1_def w2_def)
  have lt: "int i < int m" using Suc.prems by simp
  have lt': "int i + 1 < int m" using Suc.prems by simp
  have ev: "roundEvents i m = [FetchCookies, LogRetry (int i + 1), Wait 1000] @ roundEvents (Suc i) m"
    using Suc.prems by (intro roundEvents_step) simp
  have next_eq: "Suc i + Suc d = m" using Suc.prems by simp
  have "doWhile pg (int m) (int i) w events =
          doWhile pg (int m) (int (Suc i)) w2
            (events @ [FetchCookies, LogRetry (int i + 1), Wait 1000])"
    using doWhile_retry [OF f s(2) lt t, of events] lt' by (simp add: add.commute)
  also have "\<dots> = (fst (context_cookies pg ((pollRound pg ^^ d) w2)),
        (pollRound pg ^^ Suc d) w2,
        (events @ [FetchCookies, LogRetry (int i + 1), Wait 1000]) @ roundEvents (Suc i) m)"
    by (rule Suc.IH [OF next_eq])
  finally show ?case
    using ev by (simp add: w2 funpow_swap1)
qed

text \<open>
  C3. On a source that never yields a committed consent cookie, \<open>maxRetries = 2\<close> gives
  exactly two fetches, and the result is the snapshot of the second fetch.
\<close>

theorem waitForConsentCookie_exhausted_after_two:
  assumes "\<forall>w. \<exists>s. fst (context_cookies pg w) = Inr s \<and> \<not> consentCookieSet s"
    and "\<forall>w. fst (waitForTimeout pg 1000 w) = Inr ()"
  shows "waitForConsentCookie pg (Some 2) w =
           (fst (context_cookies pg (pollRound pg w)),
            pollRound pg (pollRound pg w),
            [FetchCookies, LogRetry 1, Wait 1000, FetchCookies, LogRetry 2, Wait 1000])
       \<and> fetchCount (snd (snd (waitForConsentCookie pg (Some 2) w))) = 2"
proof -
  have ev: "roundEvents 0 2 =
      [FetchCookies, LogRetry 1, Wait 1000, FetchCookies, LogRetry 2, Wait 1000]"
    by (simp add: roundEvents_def eval_nat_numeral upt_rec)
  have "doWhile pg (int 2) (int 0) w [] =
       (fst (context_cookies pg ((pollRound pg ^^ 1) w)),
        (pollRound pg ^^ Suc 1) w,
        [] @ roundEvents 0 2)"
    using assms by (rule doWhile_never_committed) simp
  then have "waitForConsentCookie pg (Some 2) w =
           (fst (context_cookies pg (pollRound pg w)),
            pollRound pg (pollRound pg w),
            [FetchCookies, LogRetry 1, Wait 1000, FetchCookies, LogRetry 2, Wait 1000])"
    by (simp add: waitForConsentCookie_def ev)
  then show ?thesis by (simp add: fetchCount_def)
qed

theorem waitForConsentCookie_exhausted_after_two_witness:
  "waitForConsentCookie silentSource (Some 2) 0 =
     (Inr [], 2, [FetchCookies, LogRetry 1, Wait 1000, FetchCookies, LogRetry 2, Wait 1000])"
proof -
  have h1: "\<forall>w. \<exists>s. fst (context_cookies silentSource w) = Inr s \<and> \<not> consentCookieSet s"
    by (simp add: silentSource_def consentCookieSet_def)
  have h2: "\<forall>w. fst (waitForTimeout silentSource 1000 w) = Inr ()"
    by (simp add: silentSource_def)
  show ?thesis
    using waitForConsentCookie_exhausted_after_two [OF h1 h2, of 0]
    by (simp add: pollRound_def silentSource_def)
qed

text \<open>
  C4. When the first two fetches yield snapshots without a committed consent cookie and
  the third fetch yields one with it, \<open>maxRetries = 3\<close> returns the third snapshot right
  after its fetch: three fetches with two waits between them, and no wait at the end.
\<close>

theorem waitForConsentCookie_committed_on_third:
  assumes "fst (context_cookies pg w) = Inr s1" and "\<not> consentCookieSet s1"
    and "fst (waitForTimeout pg 1000 (snd (context_cookies pg w))) = Inr ()"
    and "fst (context_cookies pg (pollRound pg w)) = Inr s2" and "\<not> consentCookieSet s2"
    and "fst (waitForTimeout pg 1000 (snd (context_cookies pg (pollRound pg w)))) = Inr ()"
    and "fst (context_cookies pg (pollRound pg (pollRound pg w))) = Inr s3"
    and "consentCookieSet s3"
  shows "waitForConsentCookie pg (Some 3) w =
           (Inr s3, snd (context_cookies pg (pollRound pg (pollRound pg w))),
            [FetchCookies, LogRetry 1, Wait 1000, FetchCookies, LogRetry 2, Wait 1000,
             FetchCookies])
       \<and> waitCount (snd (snd (waitForConsentCookie pg (Some 3) w))) = 2
       \<and> last (snd (snd (waitForConsentCookie pg (Some 3) w))) = FetchCookies"
proof -
  define wa where "wa = pollRound pg w"
  define wb where "wb = pollRound pg wa"
  have f1: "context_cookies pg w = (Inr s1, snd (context_cookies pg w))"
    using assms(1) by (simp add: prod_eq_iff)
  have t1: "waitForTimeout pg 1000 (snd (context_cookies pg w)) = (Inr (), wa)"
    using assms(3) by (simp add: prod_eq_iff wa_def pollRound_def)
  have f2: "context_cookies pg wa = (Inr s2, snd (context_cookies pg wa))"
    using assms(4) by (simp add: prod_eq_iff wa_def)
  have t2: "waitForTimeout pg 1000 (snd (context_cookies pg wa)) = (Inr (), wb)"
    using assms(6) by (simp add: prod_eq_iff wa_def wb_def pollRound_def)
  have f3: "context_cookies pg wb = (Inr s3, snd (context_cookies pg wb))"
    using assms(7) by (simp add: prod_eq_iff wa_def wb_def)
  have "doWhile pg 3 0 w [] =
          doWhile pg 3 1 wa [FetchCookies, LogRetry 1, Wait 1000]"
    using doWhile_retry [where maxRetries = 3 and events = "[]", OF f1 assms(2) _ t1] by simp
  also have "\<dots> = doWhile pg 3 2 wb
          [FetchCookies, LogRetry 1, Wait 1000, FetchCookies, LogRetry 2, Wait 1000]"
    using doWhile_retry [where maxRetries = 3 and events = "[FetchCookies, LogRetry 1, Wait 1000]",
        OF f2 assms(5) _ t2]
    by simp
  also have "\<dots> = (Inr s3, snd (context_cookies pg wb),
          [FetchCookies, LogRetry 1, Wait 1000, FetchCookies, LogRetry 2, Wait 1000,
           FetchCookies])"
    using doWhile_stop [where maxRetries = 3 and retryCount = 2 and events =
        "[FetchCookies, LogRetry 1, Wait 1000, FetchCookies, LogRetry 2, Wait 1000]", OF f3]
      assms(8)
    by simp
  finally show ?thesis
    by (simp add: waitForConsentCookie_def wa_def wb_def waitCount_def)
qed

theorem waitForConsentCookie_committed_on_third_witness:
  "waitForConsentCookie thirdFetchSource (Some 3) 0 =
     (Inr [\<lparr> name = ''cookieyes-consent'', domain = ''.www.thethinkingtraveller.com'',
             value_str = ''consent:yes;action:yes'' \<rparr>], 3,
      [FetchCookies, LogRetry 1, Wait 1000, FetchCookies, LogRetry 2, Wait 1000, FetchCookies])"
proof -
  have p: "pollRound thirdFetchSource n = Suc n" for n
    by (simp add: pollRound_def thirdFetchSource_def)
  have c: "context_cookies thirdFetchSource n =
      (Inr [\<lparr> name = ''cookieyes-consent'', domain = ''.www.thethinkingtraveller.com'',
                 value_str = (if 2 \<le> n then ''consent:yes;action:yes'' else ''consent:no'') \<rparr>],
          Suc n)" for n
    by (simp add: thirdFetchSource_def)
  have t: "waitForTimeout thirdFetchSource ms n = (Inr (), n)" for ms n
    by (simp add: thirdFetchSource_def)
  have h2: "\<not> consentCookieSet [\<lparr> name = ''cookieyes-consent'',
      domain = ''.www.thethinkingtraveller.com'', value_str = ''consent:no'' \<rparr>]"
    by (simp add: consentCookieSet_def)
  have h8: "consentCookieSet [\<lparr> name = ''cookieyes-consent'',
      domain = ''.www.thethinkingtraveller.com'', value_str = ''consent:yes;action:yes'' \<rparr>]"
    by (simp add: consentCookieSet_def CONSENT_COOKIE_NAME_def)
  have h1: "fst (context_cookies thirdFetchSource 0) = Inr [\<lparr> name = ''cookieyes-consent'',
      domain = ''.www.thethinkingtraveller.com'', value_str = ''consent:no'' \<rparr>]"
    by (simp add: c)
  have h3: "fst (waitForTimeout thirdFetchSource 1000 (snd (context_cookies thirdFetchSource 0))) = Inr ()"
    by (simp add: t)
  have h4: "fst (context_cookies thirdFetchSource (pollRound thirdFetchSource 0)) =
      Inr [\<lparr> name = ''cookieyes-consent'',
      domain = ''.www.thethinkingtraveller.com'', value_str = ''consent:no'' \<rparr>]"
    by (simp add: c p)
  have h6: "fst (waitForTimeout thirdFetchSource 1000
      (snd (context_cookies thirdFetchSource (pollRound thirdFetchSource 0)))) = Inr ()"
    by (simp add: t)
  have h7: "fst (context_cookies thirdFetchSource
      (pollRound thirdFetchSource (pollRound thirdFetchSource 0))) =
      Inr [\<lparr> name = ''cookieyes-consent'',
      domain = ''.www.thethinkingtraveller.com'', value_str = ''consent:yes;action:yes'' \<rparr>]"
    by (simp add: c p)
  show ?thesis
    using waitForConsentCookie_committed_on_third [OF h1 h2 h3 h4 h2 h6 h7 h8]
    by (simp add: c p)
qed

text \<open>
  C5. With \<open>maxRetries = 0\<close> the engine fetches the snapshot once, whatever the source
  yields, and leaves with the outcome of that fetch: no wait and no second fetch.
\<close>

theorem waitForConsentCookie_zero_retries:
  "waitForConsentCookie pg (Some 0) w =
     (fst (context_cookies pg w), snd (context_cookies pg w), [FetchCookies])
   \<and> fetchCount (snd (snd (waitForConsentCookie pg (Some 0) w))) = 1"
proof -
  obtain r w1 where f: "context_cookies pg w = (r, w1)" by (cases "context_cookies pg w")
  have "doWhile pg 0 0 w [] = (r, w1, [FetchCookies])"
  proof (cases r)
    case (Inl err)
    with f show ?thesis using doWhile_fetch_rejected [of pg w err w1 0 0 "[]"] by simp
  next
    case (Inr s)
    with f show ?thesis using doWhile_stop [of pg w s w1 0 0 "[]"] by simp
  qed
  then show ?thesis by (simp add: waitForConsentCookie_def f fetchCount_def)
qed

theorem waitForConsentCookie_zero_retries_witness:
  "waitForConsentCookie thirdFetchSource (Some 0) 0 =
     (Inr [\<lparr> name = ''cookieyes-consent'', domain = ''.www.thethinkingtraveller.com'',
             value_str = ''consent:no'' \<rparr>], 1, [FetchCookies])"
  using waitForConsentCookie_zero_retries [of thirdFetchSource 0]
  by (simp add: thirdFetchSource_def)

text \<open>
  C9. On a source that never yields a committed consent cookie, \<open>maxRetries = m \<ge> 1\<close>
  gives \<open>m\<close> fetches and \<open>m\<close> waits of 1000 ms, one after every fetch: the last event
  is the wait after the final fetch, and the result is the snapshot of that fetch.
\<close>

theorem waitForConsentCookie_waits_after_every_fetch:
  assumes "\<forall>w. \<exists>s. fst (context_cookies pg w) = Inr s \<and> \<not> consentCookieSet s"
    and "\<forall>w. fst (waitForTimeout pg 1000 w) = Inr ()"
    and "1 \<le> m"
  shows "waitForConsentCookie pg (Some (int m)) w =
           (fst (context_cookies pg ((pollRound pg ^^ (m - 1)) w)),
            (pollRound pg ^^ m) w,
            roundEvents 0 m)
       \<and> fetchCount (roundEvents 0 m) = m
       \<and> waitCount (roundEvents 0 m) = m
       \<and> last (roundEvents 0 m) = Wait 1000"
proof -
  from assms(3) obtain d where m: "m = Suc d" by (cases m) auto
  have "doWhile pg (int m) (int 0) w [] =
       (fst (context_cookies pg ((pollRound pg ^^ d) w)),
        (pollRound pg ^^ Suc d) w,
        [] @ roundEvents 0 m)"
    using assms(1,2) by (rule doWhile_never_committed) (simp add: m)
  then have "waitForConsentCookie pg (Some (int m)) w =
           (fst (context_cookies pg ((pollRound pg ^^ (m - 1)) w)),
            (pollRound pg ^^ m) w,
            roundEvents 0 m)"
    by (simp add: waitForConsentCookie_def m)
  moreover have "last (roundEvents 0 m) = Wait 1000"
    using assms(3) by (intro last_roundEvents) simp
  ultimately show ?thesis
    by (simp add: fetchCount_roundEvents waitCount_roundEvents)
qed

theorem waitForConsentCookie_waits_after_every_fetch_witness:
  "waitForConsentCookie silentSource (Some 3) 0 =
     (Inr [], 3,
      [FetchCookies, LogRetry 1, Wait 1000, FetchCookies, LogRetry 2, Wait 1000,
       FetchCookies, LogRetry 3, Wait 1000])"
proof -
  have h1: "\<forall>w. \<exists>s. fst (context_cookies silentSource w) = Inr s \<and> \<not> consentCookieSet s"
    by (simp add: silentSource_def consentCookieSet_def)
  have h2: "\<forall>w. fst (waitForTimeout silentSource 1000 w) = Inr ()"
    by (simp add: silentSource_def)
  have h3: "1 \<le> (3::nat)" by simp
  have ev: "roundEvents 0 (Suc (Suc (Suc 0))) =
      [FetchCookies, LogRetry 1, Wait 1000, FetchCookies, LogRetry 2, Wait 1000,
       FetchCookies, LogRetry 3, Wait 1000]"
    by (simp add: roundEvents_def)
  have p: "pollRound silentSource n = Suc n" for n
    by (simp add: pollRound_def silentSource_def)
  show ?thesis
    using waitForConsentCookie_waits_after_every_fetch [OF h1 h2 h3, of 0]
    by (simp add: ev p eval_nat_numeral) (simp add: silentSource_def)
qed

end
